theory Spec2Isabelle
  imports Complex_Main
begin

section \<open>Melody codec and model export of \<^verbatim>\<open>train.py\<close>\<close>

text \<open>
  The development embeds the functions \<^verbatim>\<open>streamToNoteArray\<close>,
  \<^verbatim>\<open>noteArrayToDataFrame\<close>, \<^verbatim>\<open>compressConfig\<close> and
  \<^verbatim>\<open>get_model_for_export\<close>. Python exceptions are values of
  \<open>error\<close>; a function that may raise returns \<open>error + 'a\<close>.
  Times (music21 offsets and quarter lengths) are exact rationals; every time the
  examples below use is a dyadic rational, which binary floating point represents and
  divides by \<open>0.25\<close> exactly.
\<close>

datatype error = IndexError | KeyError | TypeError | ValueError | OverflowError

subsection \<open>Constants\<close>

definition MELODY_NOTE_OFF :: int where
  "MELODY_NOTE_OFF = 128"

definition MELODY_NO_EVENT :: int where
  "MELODY_NO_EVENT = 129"

subsection \<open>numpy helpers\<close>

text \<open>\<^verbatim>\<open>np.round\<close>: round to the nearest integer, halves to the even neighbour.\<close>

definition np_round :: "rat \<Rightarrow> int" where
  "np_round x =
     (let f = \<lfloor>x\<rfloor>; d = x - of_int f
      in if d < 1 / 2 then f
         else if 1 / 2 < d then f + 1
         else if even f then f else f + 1)"

text \<open>Storing into an \<^verbatim>\<open>int16\<close> array keeps the low 16 bits (two's complement).\<close>

definition int16 :: "int \<Rightarrow> int" where
  "int16 v = (v + 32768) mod 65536 - 32768"

text \<open>
  \<^verbatim>\<open>output[idx] = v\<close> on a one-dimensional array: an index in \<open>[-n, 0)\<close> counts
  from the end, any index outside \<open>[-n, n)\<close> raises \<^verbatim>\<open>IndexError\<close>.
\<close>

definition np_setitem :: "int list \<Rightarrow> int \<Rightarrow> int \<Rightarrow> error + int list" where
  "np_setitem out idx v =
     (let n = int (length out)
      in if 0 \<le> idx \<and> idx < n then Inr (out[nat idx := int16 v])
         else if - n \<le> idx \<and> idx < 0 then Inr (out[nat (n + idx) := int16 v])
         else Inl IndexError)"

text \<open>
  \<^verbatim>\<open>np.zeros(n, dtype=np.int16) + np.int16(MELODY_NO_EVENT)\<close>; a negative
  length raises \<^verbatim>\<open>ValueError\<close>.
\<close>

definition np_full :: "int \<Rightarrow> error + int list" where
  "np_full n = (if n < 0 then Inl ValueError else Inr (replicate (nat n) MELODY_NO_EVENT))"

subsection \<open>The stream handed over by the parser\<close>

text \<open>
  An element of \<^verbatim>\<open>stream.flat\<close> with its offset and quarter length: a note
  (with its MIDI pitch), a chord (with the MIDI pitches of its members) or anything
  else (rests, clefs, tempo marks), which the encoder skips. A stream is the list of
  its elements in the order the iteration visits them.
\<close>

datatype element =
    Note rat rat int
  | Chord rat rat "int list"
  | Other rat rat

type_synonym stream = "element list"

fun end_time :: "element \<Rightarrow> rat" where
  "end_time (Note off ql p) = off + ql"
| "end_time (Chord off ql ps) = off + ql"
| "end_time (Other off ql) = off + ql"

fun quarterLength :: "element \<Rightarrow> rat" where
  "quarterLength (Note off ql p) = ql"
| "quarterLength (Chord off ql ps) = ql"
| "quarterLength (Other off ql) = ql"

text \<open>
  music21's \<^verbatim>\<open>highestTime\<close>: the largest offset plus quarter length of any
  element, \<open>0\<close> for a stream without elements.
\<close>

definition highestTime :: "stream \<Rightarrow> rat" where
  "highestTime s = fold max (map end_time s) 0"

text \<open>A row of the data frame: columns \<^verbatim>\<open>pos\<close>, \<^verbatim>\<open>dur\<close>, \<^verbatim>\<open>pitch\<close>.\<close>

record row =
  pos :: int
  dur :: int
  pitch :: int

subsection \<open>Part one of \<^verbatim>\<open>streamToNoteArray\<close>: extraction\<close>

definition total_length :: "stream \<Rightarrow> int" where
  "total_length s = np_round (highestTime s / (1 / 4))"

text \<open>
  One pass of the \<^verbatim>\<open>for element in stream.flat\<close> loop. For a chord,
  \<^verbatim>\<open>element.sortAscending().pitches[-1]\<close> is the last pitch in ascending order;
  on a chord without pitches the subscript raises \<^verbatim>\<open>IndexError\<close>.
\<close>

fun stream_list :: "element list \<Rightarrow> error + row list" where
  "stream_list [] = Inr []"
| "stream_list (Note off ql p # es) =
     (case stream_list es of
        Inl e \<Rightarrow> Inl e
      | Inr rs \<Rightarrow> Inr (\<lparr>pos = np_round (off / (1 / 4)), dur = np_round (ql / (1 / 4)), pitch = p\<rparr> # rs))"
| "stream_list (Chord off ql ps # es) =
     (if ps = [] then Inl IndexError
      else (case stream_list es of
              Inl e \<Rightarrow> Inl e
            | Inr rs \<Rightarrow> Inr (\<lparr>pos = np_round (off / (1 / 4)), dur = np_round (ql / (1 / 4)),
                                pitch = last (sort ps)\<rparr> # rs)))"
| "stream_list (Other off ql # es) = stream_list es"

text \<open>
  \<^verbatim>\<open>np.array(stream_list, dtype=np.int)\<close> followed by \<^verbatim>\<open>np_stream_list.T[0]\<close>:
  an empty list gives an array of shape \<open>(0,)\<close>, whose transpose has no row \<open>0\<close>, so
  the subscript raises \<^verbatim>\<open>IndexError\<close>. Otherwise the three columns are the
  three components of the rows.
\<close>

definition to_frame :: "row list \<Rightarrow> error + row list" where
  "to_frame rs = (if rs = [] then Inl IndexError else Inr rs)"

text \<open>
  \<^verbatim>\<open>df.sort_values(['pos', 'pitch'], ascending=[True, False])\<close>: rows in
  increasing \<open>pos\<close>, and for equal \<open>pos\<close> in decreasing \<open>pitch\<close>. Rows equal in
  both keys keep the order of the stream here; pandas leaves their order open, and no
  statement below depends on it.
\<close>

definition row_before :: "row \<Rightarrow> row \<Rightarrow> bool" where
  "row_before a b \<longleftrightarrow> pos a < pos b \<or> (pos a = pos b \<and> pitch b < pitch a)"

fun insert_row :: "row \<Rightarrow> row list \<Rightarrow> row list" where
  "insert_row r [] = [r]"
| "insert_row r (x # xs) = (if row_before x r then x # insert_row r xs else r # x # xs)"

fun sort_values :: "row list \<Rightarrow> row list" where
  "sort_values [] = []"
| "sort_values (r # rs) = insert_row r (sort_values rs)"

text \<open>\<^verbatim>\<open>df.drop_duplicates(subset=['pos'])\<close>: the first row of each \<open>pos\<close> stays.\<close>

fun drop_duplicates :: "int list \<Rightarrow> row list \<Rightarrow> row list" where
  "drop_duplicates seen [] = []"
| "drop_duplicates seen (r # rs) =
     (if pos r \<in> set seen then drop_duplicates seen rs
      else r # drop_duplicates (pos r # seen) rs)"

text \<open>The data frame \<^verbatim>\<open>df\<close> as it stands before part two.\<close>

definition note_frame :: "stream \<Rightarrow> error + row list" where
  "note_frame s =
     (case stream_list s of
        Inl e \<Rightarrow> Inl e
      | Inr rs \<Rightarrow>
          (case to_frame rs of
             Inl e \<Rightarrow> Inl e
           | Inr fr \<Rightarrow> Inr (drop_duplicates [] (sort_values fr))))"

subsection \<open>Part two of \<^verbatim>\<open>streamToNoteArray\<close>: the event array\<close>

text \<open>
  The body of \<^verbatim>\<open>for i in range(total_length)\<close>, over the ticks still to visit.
  \<^verbatim>\<open>df[df.pos == i].iloc[0]\<close> is the first row of the frame whose \<open>pos\<close> is \<open>i\<close>.
\<close>

fun fill_output :: "row list \<Rightarrow> nat list \<Rightarrow> int list \<Rightarrow> error + int list" where
  "fill_output df [] out = Inr out"
| "fill_output df (i # ticks) out =
     (case find (\<lambda>r. pos r = int i) df of
        None \<Rightarrow> fill_output df ticks out
      | Some n \<Rightarrow>
          (case np_setitem out (int i) (pitch n) of
             Inl e \<Rightarrow> Inl e
           | Inr out1 \<Rightarrow>
               (case np_setitem out1 (int i + dur n) MELODY_NOTE_OFF of
                  Inl e \<Rightarrow> Inl e
                | Inr out2 \<Rightarrow> fill_output df ticks out2)))"

definition streamToNoteArray :: "stream \<Rightarrow> error + int list" where
  "streamToNoteArray s =
     (case note_frame s of
        Inl e \<Rightarrow> Inl e
      | Inr df \<Rightarrow>
          (case np_full (total_length s + 1) of
             Inl e \<Rightarrow> Inl e
           | Inr out \<Rightarrow> fill_output df [0..<nat (total_length s)] out))"

subsection \<open>\<^verbatim>\<open>noteArrayToDataFrame\<close>\<close>

text \<open>
  \<^verbatim>\<open>Series.diff(-1)\<close>: each entry minus its successor; the last entry has no
  successor and becomes NaN, written \<open>None\<close>.
\<close>

fun diff_back :: "int list \<Rightarrow> rat option list" where
  "diff_back [] = []"
| "diff_back [x] = [None]"
| "diff_back (x # y # ys) = Some (of_int (x - y)) # diff_back (y # ys)"

text \<open>\<^verbatim>\<open>fillna(0.25)\<close> on the duration column.\<close>

definition fillna :: "rat option list \<Rightarrow> rat list" where
  "fillna ds = map (\<lambda>d. case d of None \<Rightarrow> 1 / 4 | Some v \<Rightarrow> v) ds"

text \<open>
  The rows that survive \<^verbatim>\<open>df[df.code != MELODY_NO_EVENT]\<close>, as pairs of the
  code and the original index (the value of the \<^verbatim>\<open>duration\<close> column before the
  difference is taken).
\<close>

definition retained :: "int list \<Rightarrow> (int \<times> int) list" where
  "retained note_array =
     filter (\<lambda>(code, idx). code \<noteq> MELODY_NO_EVENT)
       (zip note_array (map int [0..<length note_array]))"

definition noteArrayToDataFrame :: "int list \<Rightarrow> (int \<times> rat) list" where
  "noteArrayToDataFrame note_array =
     (let df = retained note_array;
          duration = fillna (map (map_option (\<lambda>v. v * (- 1) * (1 / 4))) (diff_back (map snd df)))
      in zip (map fst df) duration)"

subsection \<open>JSON values and dictionary access\<close>

text \<open>
  The value \<^verbatim>\<open>json.loads\<close> returns. An object is a list of bindings read from
  the front, as \<open>map_of\<close> does.
\<close>

datatype json =
    JNull
  | JBool bool
  | JInt int
  | JFloat rat
  | JStr string
  | JArr "json list"
  | JObj "(string \<times> json) list"

text \<open>
  \<^verbatim>\<open>d[key]\<close> with a string key: \<^verbatim>\<open>KeyError\<close> on a dictionary without the
  key, \<^verbatim>\<open>TypeError\<close> on every other kind of value.
\<close>

definition getitem :: "json \<Rightarrow> string \<Rightarrow> error + json" where
  "getitem d k =
     (case d of
        JObj kvs \<Rightarrow> (case map_of kvs k of None \<Rightarrow> Inl KeyError | Some v \<Rightarrow> Inr v)
      | _ \<Rightarrow> Inl TypeError)"

text \<open>
  What \<^verbatim>\<open>for x in v\<close> visits: the elements of a list, the keys of a dictionary,
  the characters of a string; other values are not iterable.
\<close>

definition py_iter :: "json \<Rightarrow> error + json list" where
  "py_iter v =
     (case v of
        JArr xs \<Rightarrow> Inr xs
      | JObj kvs \<Rightarrow> Inr (map (\<lambda>(k, _). JStr k) kvs)
      | JStr s \<Rightarrow> Inr (map (\<lambda>c. JStr [c]) s)
      | _ \<Rightarrow> Inl TypeError)"

subsection \<open>\<^verbatim>\<open>compressConfig\<close>\<close>

text \<open>
  A dictionary display \<^verbatim>\<open>{k1: cfg[k1], k2: cfg[k2], ...}\<close>: the subscripts are
  evaluated left to right and the first failure is raised.
\<close>

fun select_keys :: "json \<Rightarrow> string list \<Rightarrow> error + (string \<times> json) list" where
  "select_keys cfg [] = Inr []"
| "select_keys cfg (k # ks) =
     (case getitem cfg k of
        Inl e \<Rightarrow> Inl e
      | Inr v \<Rightarrow>
          (case select_keys cfg ks of
             Inl e \<Rightarrow> Inl e
           | Inr kvs \<Rightarrow> Inr ((k, v) # kvs)))"

definition some_config :: "error + (string \<times> json) list \<Rightarrow> error + json option" where
  "some_config r = (case r of Inl e \<Rightarrow> Inl e | Inr kvs \<Rightarrow> Inr (Some (JObj kvs)))"

text \<open>The \<^verbatim>\<open>if\<close>/\<^verbatim>\<open>elif\<close> chain; \<open>None\<close> is \<^verbatim>\<open>layer_config = None\<close>.\<close>

definition layer_config :: "json \<Rightarrow> json \<Rightarrow> error + json option" where
  "layer_config class_name cfg =
     (if class_name = JStr ''InputLayer'' then
        some_config (select_keys cfg [''batch_input_shape''])
      else if class_name = JStr ''Rescaling'' then
        some_config (select_keys cfg [''scale'', ''offset''])
      else if class_name = JStr ''Dense'' then
        some_config (select_keys cfg [''units'', ''activation''])
      else if class_name = JStr ''Conv2D'' then
        some_config (select_keys cfg
          [''filters'', ''kernel_size'', ''strides'', ''activation'', ''padding''])
      else if class_name = JStr ''MaxPooling2D'' then
        some_config (select_keys cfg [''pool_size'', ''strides'', ''padding''])
      else if class_name = JStr ''Embedding'' then
        some_config (select_keys cfg [''input_dim'', ''output_dim''])
      else if class_name = JStr ''SimpleRNN'' then
        some_config (select_keys cfg [''units'', ''activation''])
      else if class_name = JStr ''LSTM'' then
        some_config (select_keys cfg [''units'', ''activation'', ''recurrent_activation''])
      else Inr None)"

text \<open>One pass of \<^verbatim>\<open>for layer in data["config"]["layers"]\<close>.\<close>

definition compress_layer :: "json \<Rightarrow> error + json" where
  "compress_layer layer =
     (case getitem layer ''config'' of
        Inl e \<Rightarrow> Inl e
      | Inr cfg \<Rightarrow>
          (case getitem layer ''class_name'' of
             Inl e \<Rightarrow> Inl e
           | Inr class_name \<Rightarrow>
               (case layer_config class_name cfg of
                  Inl e \<Rightarrow> Inl e
                | Inr lc \<Rightarrow>
                    Inr (JObj ((''class_name'', class_name) #
                               (case lc of None \<Rightarrow> [] | Some c \<Rightarrow> [(''config'', c)]))))))"

fun compress_layers :: "json list \<Rightarrow> error + json list" where
  "compress_layers [] = Inr []"
| "compress_layers (layer # rest) =
     (case compress_layer layer of
        Inl e \<Rightarrow> Inl e
      | Inr res_layer \<Rightarrow>
          (case compress_layers rest of
             Inl e \<Rightarrow> Inl e
           | Inr layers \<Rightarrow> Inr (res_layer # layers)))"

definition compressConfig :: "json \<Rightarrow> error + json" where
  "compressConfig data =
     (case getitem data ''config'' of
        Inl e \<Rightarrow> Inl e
      | Inr c \<Rightarrow>
          (case getitem c ''layers'' of
             Inl e \<Rightarrow> Inl e
           | Inr ls \<Rightarrow>
               (case py_iter ls of
                  Inl e \<Rightarrow> Inl e
                | Inr items \<Rightarrow>
                    (case compress_layers items of
                       Inl e \<Rightarrow> Inl e
                     | Inr layers \<Rightarrow>
                         Inr (JObj [(''config'', JObj [(''layers'', JArr layers)])])))))"

text \<open>
  The parameter keys the export format documents for each recognized kind, \<open>None\<close>
  for every other kind string. The specification spells out the keys of the input
  layer (\<^verbatim>\<open>batch_input_shape\<close>), of \<^verbatim>\<open>Dense\<close> (\<^verbatim>\<open>units\<close>,
  \<^verbatim>\<open>activation\<close>) and of \<^verbatim>\<open>LSTM\<close> (\<^verbatim>\<open>units\<close>, \<^verbatim>\<open>activation\<close>,
  \<^verbatim>\<open>recurrent_activation\<close>); for the other five kinds the table lists the keys of
  the export format as the source writes them. The table is kept apart from
  \<open>layer_config\<close>, against which it is compared.
\<close>

definition documented_keys :: "string \<Rightarrow> string list option" where
  "documented_keys kind =
     (if kind = ''InputLayer'' then Some [''batch_input_shape'']
      else if kind = ''Rescaling'' then Some [''scale'', ''offset'']
      else if kind = ''Dense'' then Some [''units'', ''activation'']
      else if kind = ''Conv2D'' then
        Some [''filters'', ''kernel_size'', ''strides'', ''activation'', ''padding'']
      else if kind = ''MaxPooling2D'' then Some [''pool_size'', ''strides'', ''padding'']
      else if kind = ''Embedding'' then Some [''input_dim'', ''output_dim'']
      else if kind = ''SimpleRNN'' then Some [''units'', ''activation'']
      else if kind = ''LSTM'' then Some [''units'', ''activation'', ''recurrent_activation'']
      else None)"

subsection \<open>Packing the weights\<close>

text \<open>
  A Python float: a finite value, an infinity or NaN. The finite values are kept as
  exact rationals.
\<close>

datatype pyfloat = Finite rat | PosInf | NegInf | NaN

text \<open>
  The search for the binary exponent of a non-negative \<open>y = |x| * 2 ^ 149\<close>: the
  least \<open>n\<close> with \<open>y < 2 ^ (n + 24)\<close>, tried for \<open>fuel\<close> candidates from \<open>n\<close> on;
  \<open>q\<close> is \<open>2 ^ n\<close>, and the result pairs the exponent with that power.
\<close>

fun f32_exponent :: "rat \<Rightarrow> nat \<Rightarrow> nat \<Rightarrow> rat \<Rightarrow> nat \<times> rat" where
  "f32_exponent y 0 n q = (n, q)"
| "f32_exponent y (Suc fuel) n q =
     (if y < q * 16777216 then (n, q) else f32_exponent y fuel (Suc n) (2 * q))"

text \<open>
  The 31 low bits of the IEEE-754 single nearest to \<open>|x|\<close>, halves to even: the
  significand \<open>m\<close> is \<open>|x|\<close> in units of \<open>2 ^ (n - 149)\<close>, and \<open>n * 2 ^ 23 + m\<close> is
  the biased exponent and fraction at once (a significand of \<open>2 ^ 24\<close> carries into
  the exponent). A result from \<open>255 * 2 ^ 23\<close> on is the encoding of infinity.
\<close>

definition f32_magnitude :: "rat \<Rightarrow> int" where
  "f32_magnitude x =
     (let y = \<bar>x\<bar> * 2 ^ 149
      in case f32_exponent y 254 0 1 of (n, q) \<Rightarrow> int n * 8388608 + np_round (y / q))"

text \<open>The four bytes of a 32-bit pattern, least significant first.\<close>

definition le_bytes :: "int \<Rightarrow> nat list" where
  "le_bytes w =
     [nat (w mod 256), nat (w div 256 mod 256), nat (w div 65536 mod 256),
      nat (w div 16777216 mod 256)]"

text \<open>
  \<^verbatim>\<open>struct.pack("@f", x)\<close> on a little-endian host: the four bytes of the C
  \<^verbatim>\<open>float\<close> nearest to \<open>x\<close>. NaN and the infinities are packed like any other
  value; a finite \<open>x\<close> that rounds to infinity raises \<^verbatim>\<open>OverflowError\<close>.
\<close>

definition struct_pack_f :: "pyfloat \<Rightarrow> error + nat list" where
  "struct_pack_f v =
     (case v of
        NaN \<Rightarrow> Inr (le_bytes 0x7FC00000)
      | PosInf \<Rightarrow> Inr (le_bytes 0x7F800000)
      | NegInf \<Rightarrow> Inr (le_bytes 0xFF800000)
      | Finite x \<Rightarrow>
          (let m = f32_magnitude x
           in if 0x7F800000 \<le> m then Inl OverflowError
              else Inr (le_bytes (if x < 0 then 0x80000000 + m else m))))"

text \<open>
  The three nested \<^verbatim>\<open>for\<close> statements of \<^verbatim>\<open>get_model_for_export\<close>. A weight group is given
  flattened, as \<^verbatim>\<open>weight_group.reshape(-1).tolist()\<close> returns it.
\<close>

fun pack_group :: "nat list \<Rightarrow> pyfloat list \<Rightarrow> error + nat list" where
  "pack_group weight_bytes [] = Inr weight_bytes"
| "pack_group weight_bytes (i # flatten) =
     (case struct_pack_f i of
        Inl e \<Rightarrow> Inl e
      | Inr b \<Rightarrow> pack_group (weight_bytes @ b) flatten)"

fun pack_layer :: "nat list \<Rightarrow> pyfloat list list \<Rightarrow> error + nat list" where
  "pack_layer weight_bytes [] = Inr weight_bytes"
| "pack_layer weight_bytes (weight_group # layer) =
     (case pack_group weight_bytes weight_group of
        Inl e \<Rightarrow> Inl e
      | Inr bs \<Rightarrow> pack_layer bs layer)"

fun pack_weights :: "nat list \<Rightarrow> pyfloat list list list \<Rightarrow> error + nat list" where
  "pack_weights weight_bytes [] = Inr weight_bytes"
| "pack_weights weight_bytes (layer # weight_np) =
     (case pack_layer weight_bytes layer of
        Inl e \<Rightarrow> Inl e
      | Inr bs \<Rightarrow> pack_weights bs weight_np)"


subsection \<open>\<^verbatim>\<open>base64.b64encode\<close>\<close>

definition b64_alphabet :: string where
  "b64_alphabet = ''ABCDEFGHIJKLMNOPQRSTUVWXYZabcdefghijklmnopqrstuvwxyz0123456789+/''"

definition b64_char :: "nat \<Rightarrow> char" where
  "b64_char n = b64_alphabet ! (n mod 64)"

fun b64encode :: "nat list \<Rightarrow> string" where
  "b64encode (a # b # c # rest) =
     [b64_char (a div 4), b64_char (a mod 4 * 16 + b div 16),
      b64_char (b mod 16 * 4 + c div 64), b64_char (c mod 64)] @ b64encode rest"
| "b64encode [a, b] =
     [b64_char (a div 4), b64_char (a mod 4 * 16 + b div 16), b64_char (b mod 16 * 4), CHR ''='']"
| "b64encode [a] = [b64_char (a div 4), b64_char (a mod 4 * 16), CHR ''='', CHR ''='']"
| "b64encode [] = []"

subsection \<open>\<^verbatim>\<open>get_model_for_export\<close>\<close>

text \<open>
  What the function reads from its \<^verbatim>\<open>model\<close> argument: the weights of every
  layer (\<^verbatim>\<open>get_weights\<close>) and the parsed \<^verbatim>\<open>model.to_json()\<close>.
\<close>

record keras_model =
  get_weights :: "pyfloat list list list"
  to_json :: json

text \<open>
  The result pairs the JSON value dumped to \<^verbatim>\<open>output_path\<close> with the returned
  tuple \<^verbatim>\<open>(weight_base64, compressed_config)\<close>.
\<close>

definition get_model_for_export :: "keras_model \<Rightarrow> error + (json \<times> string \<times> json)" where
  "get_model_for_export model =
     (case pack_weights [] (get_weights model) of
        Inl e \<Rightarrow> Inl e
      | Inr weight_bytes \<Rightarrow>
          (let weight_base64 = b64encode weight_bytes
           in case compressConfig (to_json model) of
                Inl e \<Rightarrow> Inl e
              | Inr compressed_config \<Rightarrow>
                  Inr (JObj [(''model_name'', JStr ''musicnetgen''),
                             (''layers_config'', compressed_config),
                             (''weight_b64'', JStr weight_base64)],
                       weight_base64, compressed_config)))"

section \<open>Properties of the embedding\<close>

subsection \<open>The encoder loop\<close>



lemma np_setitem_other:
  "np_setitem out idx v = Inr out' \<Longrightarrow> 0 \<le> idx \<Longrightarrow> k \<noteq> nat idx \<Longrightarrow> out' ! k = out ! k"
  by (auto simp: np_setitem_def Let_def split: if_splits)

lemma np_setitem_at:
  "np_setitem out idx v = Inr out' \<Longrightarrow> 0 \<le> idx \<Longrightarrow> out' ! nat idx = int16 v"
  by (auto simp: np_setitem_def Let_def split: if_splits)




lemma fill_output_keeps:
  assumes "fill_output df ticks out = Inr out'"
    and "\<forall>r\<in>set df. 0 \<le> dur r"
    and "\<forall>t\<in>set ticks. k < t"
  shows "out' ! k = out ! k"
  using assms
proof (induction ticks arbitrary: out)
  case Nil
  then show ?case by simp
next
  case (Cons i ticks)
  show ?case
  proof (cases "find (\<lambda>r. pos r = int i) df")
    case None
    with Cons show ?thesis by simp
  next
    case (Some n)
    then have "n \<in> set df"
      by (auto simp: find_Some_iff)
    with Cons.prems have d: "0 \<le> dur n" by blast
    from Cons.prems Some obtain out1 out2 where
      s1: "np_setitem out (int i) (pitch n) = Inr out1" and
      s2: "np_setitem out1 (int i + dur n) MELODY_NOTE_OFF = Inr out2" and
      r: "fill_output df ticks out2 = Inr out'"
      by (auto split: sum.splits)
    from Cons.prems have ki: "k < i" by simp
    have "out' ! k = out2 ! k"
      using Cons.IH [OF r] Cons.prems by simp
    also have "\<dots> = out1 ! k"
      using np_setitem_other [OF s2] d ki by simp
    also have "\<dots> = out ! k"
      using np_setitem_other [OF s1] ki by simp
    finally show ?thesis .
  qed
qed

lemma fill_output_append:
  "fill_output df (xs @ ys) out =
     (case fill_output df xs out of Inl e \<Rightarrow> Inl e | Inr mid \<Rightarrow> fill_output df ys mid)"
  by (induction xs arbitrary: out) (auto split: option.splits sum.splits)


lemma int16_note_off: "int16 MELODY_NOTE_OFF = MELODY_NOTE_OFF"
  by (simp add: int16_def MELODY_NOTE_OFF_def)

lemma encoder_tick:
  assumes fr: "note_frame s = Inr df"
    and fi: "find (\<lambda>r. pos r = int i) df = Some n"
    and lt: "int i < total_length s"
    and nn: "\<forall>r\<in>set df. 0 \<le> dur r"
    and res: "streamToNoteArray s = Inr out"
  shows "out ! i = (if dur n = 0 then MELODY_NOTE_OFF else int16 (pitch n))"
proof -
  let ?T = "nat (total_length s)"
  from lt have iT: "i < ?T" by simp
  from res fr obtain out0 where
    full: "np_full (total_length s + 1) = Inr out0" and
    fill: "fill_output df [0..<?T] out0 = Inr out"
    by (auto simp: streamToNoteArray_def split: sum.splits)
  have ticks: "[0..<?T] = [0..<i] @ i # [Suc i..<?T]"
    using iT by (metis le0 less_imp_le_nat upt_add_eq_append upt_conv_Cons le_add_diff_inverse)
  from fill obtain mid where
    m: "fill_output df [0..<i] out0 = Inr mid" and
    rest: "fill_output df (i # [Suc i..<?T]) mid = Inr out"
    by (auto simp: ticks fill_output_append split: sum.splits)
  from rest fi obtain out1 out2 where
    s1: "np_setitem mid (int i) (pitch n) = Inr out1" and
    s2: "np_setitem out1 (int i + dur n) MELODY_NOTE_OFF = Inr out2" and
    r: "fill_output df [Suc i..<?T] out2 = Inr out"
    by (auto split: sum.splits)
  from fi have "n \<in> set df" by (auto simp: find_Some_iff)
  with nn have d: "0 \<le> dur n" by blast
  have "out ! i = out2 ! i"
    using fill_output_keeps [OF r nn, of i] by simp
  also have "out2 ! i = (if dur n = 0 then MELODY_NOTE_OFF else int16 (pitch n))"
  proof (cases "dur n = 0")
    case True
    with np_setitem_at [OF s2] int16_note_off show ?thesis by simp
  next
    case False
    with d have "i \<noteq> nat (int i + dur n)" by simp
    with np_setitem_other [OF s2, of i] d have "out2 ! i = out1 ! i" by simp
    also have "\<dots> = int16 (pitch n)"
      using np_setitem_at [OF s1] by simp
    finally show ?thesis using False by simp
  qed
  finally show ?thesis .
qed

lemma np_round_nonneg: "0 \<le> x \<Longrightarrow> 0 \<le> np_round x"
  by (auto simp: np_round_def Let_def)

lemma stream_list_durations:
  "stream_list es = Inr rs \<Longrightarrow> \<forall>e\<in>set es. 0 \<le> quarterLength e \<Longrightarrow> \<forall>r\<in>set rs. 0 \<le> dur r"
  by (induction es arbitrary: rs rule: stream_list.induct)
    (auto split: sum.splits if_splits simp: np_round_nonneg)

lemma set_insert_row: "set (insert_row r xs) = insert r (set xs)"
  by (induction xs) auto

lemma set_sort_values: "set (sort_values xs) = set xs"
  by (induction xs) (auto simp: set_insert_row)

lemma set_drop_duplicates: "set (drop_duplicates seen xs) \<subseteq> set xs"
  by (induction xs arbitrary: seen) auto

lemma note_frame_durations:
  assumes "note_frame s = Inr df" and "\<forall>e\<in>set s. 0 \<le> quarterLength e"
  shows "\<forall>r\<in>set df. 0 \<le> dur r"
proof -
  from assms(1) obtain rs where
    rs: "stream_list s = Inr rs" and df: "df = drop_duplicates [] (sort_values rs)"
    by (auto simp: note_frame_def to_frame_def split: sum.splits if_splits)
  have "set df \<subseteq> set rs"
    using set_drop_duplicates [of "[]" "sort_values rs"] by (simp add: df set_sort_values)
  with stream_list_durations [OF rs assms(2)] show ?thesis by blast
qed

subsection \<open>The decoder\<close>

lemma length_diff_back: "length (diff_back xs) = length xs"
  by (induction xs rule: diff_back.induct) auto

lemma diff_back_nth:
  "i < length xs \<Longrightarrow>
   diff_back xs ! i = (if Suc i < length xs then Some (of_int (xs ! i - xs ! Suc i)) else None)"
proof (induction xs arbitrary: i rule: diff_back.induct)
  case 1
  then show ?case by simp
next
  case (2 x)
  then show ?case by simp
next
  case (3 x y ys)
  then show ?case by (cases i) auto
qed

lemma retained_index_increasing: "sorted_wrt (<) (map snd (retained a))"
proof -
  have "sorted_wrt (<) (map int [0..<length a])"
    by (simp add: sorted_wrt_map)
  then have "sorted_wrt (\<lambda>x y. snd x < snd y) (zip a (map int [0..<length a]))"
    by (simp add: sorted_wrt_map [symmetric] del: map_map)
  then show ?thesis
    unfolding retained_def sorted_wrt_map by (rule sorted_wrt_filter)
qed

lemma length_noteArrayToDataFrame: "length (noteArrayToDataFrame a) = length (retained a)"
  by (simp add: noteArrayToDataFrame_def Let_def fillna_def length_diff_back)

lemma noteArrayToDataFrame_nth:
  assumes "i < length (retained a)"
  shows "noteArrayToDataFrame a ! i =
           (fst (retained a ! i),
            if Suc i < length (retained a)
            then of_int (snd (retained a ! Suc i) - snd (retained a ! i)) * (1 / 4)
            else 1 / 4)"
proof -
  let ?idx = "map snd (retained a)"
  have i: "i < length ?idx" using assms by simp
  have "fillna (map (map_option (\<lambda>v. v * (- 1) * (1 / 4))) (diff_back ?idx)) ! i =
          (if Suc i < length (retained a)
           then of_int (snd (retained a ! Suc i) - snd (retained a ! i)) * (1 / 4)
           else 1 / 4)"
  proof (cases "Suc i < length (retained a)")
    case True
    have neg: "(of_int (x - y) :: rat) * (- 1) * (1 / 4) = of_int (y - x) * (1 / 4)" for x y :: int
      by simp
    from True assms diff_back_nth [OF i] show ?thesis
      by (simp add: fillna_def length_diff_back neg del: of_int_diff)
  next
    case False
    with assms diff_back_nth [OF i] show ?thesis
      by (simp add: fillna_def length_diff_back)
  qed
  with assms show ?thesis
    by (simp add: noteArrayToDataFrame_def Let_def fillna_def length_diff_back)
qed

lemma retained_entries:
  "(c, k) \<in> set (retained a) \<Longrightarrow>
     c \<noteq> MELODY_NO_EVENT \<and> 0 \<le> k \<and> k < int (length a) \<and> a ! nat k = c"
  by (auto simp: retained_def in_set_zip)

subsection \<open>The config compressor\<close>

lemma select_keys_result:
  "select_keys cfg ks = Inr kvs \<Longrightarrow>
     map fst kvs = ks \<and> (\<forall>(k, v)\<in>set kvs. getitem cfg k = Inr v)"
  by (induction ks arbitrary: kvs) (auto split: sum.splits)

lemma select_keys_succeeds:
  "\<forall>k\<in>set ks. \<exists>v. getitem cfg k = Inr v \<Longrightarrow> \<exists>kvs. select_keys cfg ks = Inr kvs"
  by (induction ks) (auto split: sum.splits)

lemma layer_config_documented:
  "layer_config (JStr kind) cfg =
     (case documented_keys kind of
        None \<Rightarrow> Inr None
      | Some ks \<Rightarrow> some_config (select_keys cfg ks))"
  unfolding layer_config_def documented_keys_def
  by (simp only: json.inject option.case
      if_distrib [where f = "case_option (Inr None) (\<lambda>ks. some_config (select_keys cfg ks))"])

subsection \<open>The weight packer\<close>












lemma f32_exponent_numeral:
  "f32_exponent y (numeral k) n q =
     (if y < q * 16777216 then (n, q) else f32_exponent y (pred_numeral k) (Suc n) (2 * q))"
  by (simp add: numeral_eq_Suc)

lemma f32_magnitude_one: "f32_magnitude 1 = 0x3F800000"
  by (simp add: f32_magnitude_def f32_exponent_numeral np_round_def Let_def)


subsection \<open>The export artifact\<close>

lemma layer_config_shape:
  "layer_config cn cfg = Inr lc \<Longrightarrow> lc = None \<or> (\<exists>kvs. lc = Some (JObj kvs))"
  by (auto simp: layer_config_def some_config_def split: if_splits sum.splits)

lemma compress_layer_shape:
  assumes "compress_layer layer = Inr res"
  shows "\<exists>cn. res = JObj [(''class_name'', cn)] \<or>
              (\<exists>kvs. res = JObj [(''class_name'', cn), (''config'', JObj kvs)])"
proof -
  from assms obtain cfg cn lc where
    lc: "layer_config cn cfg = Inr lc" and
    res: "res = JObj ((''class_name'', cn) # (case lc of None \<Rightarrow> [] | Some c \<Rightarrow> [(''config'', c)]))"
    by (auto simp: compress_layer_def split: sum.splits)
  from layer_config_shape [OF lc] res show ?thesis
    by auto
qed

lemma compress_layers_shape:
  "compress_layers ls = Inr rs \<Longrightarrow>
     \<forall>res\<in>set rs. \<exists>cn. res = JObj [(''class_name'', cn)] \<or>
        (\<exists>kvs. res = JObj [(''class_name'', cn), (''config'', JObj kvs)])"
proof (induction ls arbitrary: rs)
  case Nil
  then show ?case by simp
next
  case (Cons l ls)
  from Cons.prems obtain r rest where
    r: "compress_layer l = Inr r" and rest: "compress_layers ls = Inr rest" and rs: "rs = r # rest"
    by (auto split: sum.splits)
  from compress_layer_shape [OF r] Cons.IH [OF rest] rs show ?case
    by simp
qed

lemma compressConfig_shape:
  assumes "compressConfig data = Inr c"
  shows "\<exists>layers. c = JObj [(''config'', JObj [(''layers'', JArr layers)])] \<and>
           (\<forall>res\<in>set layers. \<exists>cn. res = JObj [(''class_name'', cn)] \<or>
              (\<exists>kvs. res = JObj [(''class_name'', cn), (''config'', JObj kvs)]))"
proof -
  from assms obtain items layers where
    ls: "compress_layers items = Inr layers" and
    c: "c = JObj [(''config'', JObj [(''layers'', JArr layers)])]"
    by (auto simp: compressConfig_def split: sum.splits)
  from compress_layers_shape [OF ls] c show ?thesis
    by blast
qed

text \<open>A two-layer model with one weight, \<open>1.0\<close>, and what the export makes of it.\<close>

lemma example_export:
  "get_model_for_export
     \<lparr>get_weights = [[[Finite 1]], []],
        to_json = JObj [(''class_name'', JStr ''Sequential''),
                        (''config'', JObj [(''name'', JStr ''sequential''),
                           (''layers'', JArr [
                              JObj [(''class_name'', JStr ''Dense''),
                                    (''config'', JObj [(''name'', JStr ''dense''), (''units'', JInt 1),
                                                       (''activation'', JStr ''linear'')])],
                              JObj [(''class_name'', JStr ''Activation''),
                                    (''config'', JObj [(''activation'', JStr ''softmax'')])]])])]\<rparr> =
   Inr (JObj [(''model_name'', JStr ''musicnetgen''),
           (''layers_config'', JObj [(''config'', JObj [(''layers'', JArr [
                   JObj [(''class_name'', JStr ''Dense''),
                         (''config'', JObj [(''units'', JInt 1), (''activation'', JStr ''linear'')])],
                   JObj [(''class_name'', JStr ''Activation'')]])])]),
           (''weight_b64'', JStr ''AACAPw=='')],
        ''AACAPw=='',
        JObj [(''config'', JObj [(''layers'', JArr [
                JObj [(''class_name'', JStr ''Dense''),
                      (''config'', JObj [(''units'', JInt 1), (''activation'', JStr ''linear'')])],
                JObj [(''class_name'', JStr ''Activation'')]])])])"
  by (simp add: get_model_for_export_def compressConfig_def getitem_def py_iter_def
      compress_layer_def layer_config_def some_config_def struct_pack_f_def f32_magnitude_one
      le_bytes_def b64_char_def b64_alphabet_def Let_def)

section \<open>The claims\<close>

subsection \<open>Encoder\<close>

text \<open>
  Claim C5. The stream of the three notes (onset, duration, pitch) \<open>(0, 1, 60)\<close>,
  \<open>(1, 1, 62)\<close>, \<open>(2, 1, 64)\<close> encodes to an array of length 13 holding 60 at
  index 0, 62 at index 4, 64 at index 8, NOTE_OFF (128) at index 12 and NO_EVENT (129)
  everywhere else.
\<close>

theorem encoder_example:
  "streamToNoteArray [Note 0 1 60, Note 1 1 62, Note 2 1 64] =
     Inr [60, 129, 129, 129, 62, 129, 129, 129, 64, 129, 129, 129, 128]"
  by code_simp

text \<open>
  Claim C2. On a stream without notes or chords the encoder does not return the
  one-element array \<open>[129]\<close>: the list of extracted rows is empty, the column
  subscript \<^verbatim>\<open>np_stream_list.T[0]\<close> raises, and the call ends in
  \<^verbatim>\<open>IndexError\<close>.
\<close>

theorem encoder_empty_stream_raises: "streamToNoteArray [] = Inl IndexError"
  by code_simp




text \<open>
  Claim C6, as stated, at a concrete stream. A single note at offset 0 with quarter
  length \<open>1/16\<close> has onset tick 0 and a duration of 0 ticks; \<open>totalTicks\<close> is 0,
  the loop over \<^verbatim>\<open>range(total_length)\<close> visits no tick, and the output at the
  onset tick is NO_EVENT (129), not NOTE_OFF.
\<close>

theorem encoder_zero_duration_unvisited:
  "note_frame [Note 0 (1 / 16) 60] = Inr [\<lparr>pos = 0, dur = 0, pitch = 60\<rparr>] \<and>
   streamToNoteArray [Note 0 (1 / 16) 60] = Inr [129]"
  by code_simp

text \<open>
  Claim C6, amended. In a stream whose quarter lengths are not negative, for every
  retained note whose onset tick is below \<open>totalTicks\<close> and whose duration is 0
  ticks, every array the encoder returns holds NOTE_OFF (128) at that onset tick.
\<close>

theorem encoder_zero_duration:
  assumes "note_frame s = Inr df"
    and "find (\<lambda>r. pos r = int i) df = Some n"
    and "dur n = 0"
    and "int i < total_length s"
    and "\<forall>e\<in>set s. 0 \<le> quarterLength e"
    and "streamToNoteArray s = Inr out"
  shows "out ! i = MELODY_NOTE_OFF"
  using encoder_tick [OF assms(1,2,4) note_frame_durations [OF assms(1,5)] assms(6)] assms(3)
  by simp

theorem encoder_zero_duration_witness:
  "find (\<lambda>r. pos r = int 4)
     [\<lparr>pos = 0, dur = 4, pitch = 60\<rparr>, \<lparr>pos = 4, dur = 0, pitch = 62\<rparr>,
      \<lparr>pos = 8, dur = 4, pitch = 64\<rparr>] = Some \<lparr>pos = 4, dur = 0, pitch = 62\<rparr> \<and>
   int 4 < total_length [Note 0 1 60, Note 1 (1 / 16) 62, Note 2 1 64] \<and>
   streamToNoteArray [Note 0 1 60, Note 1 (1 / 16) 62, Note 2 1 64] =
     Inr [60, 129, 129, 129, 128, 129, 129, 129, 64, 129, 129, 129, 128] \<and>
   [60, 129, 129, 129, 128, 129, 129, 129, 64, 129, 129, 129, 128 :: int] ! 4 = MELODY_NOTE_OFF"
proof -
  let ?s = "[Note 0 1 60, Note 1 (1 / 16) 62, Note 2 1 64]"
  let ?df = "[\<lparr>pos = 0, dur = 4, pitch = 60\<rparr>, \<lparr>pos = 4, dur = 0, pitch = 62\<rparr>,
              \<lparr>pos = 8, dur = 4, pitch = 64\<rparr>]"
  have fr: "note_frame ?s = Inr ?df"
    by code_simp
  have fi: "find (\<lambda>r. pos r = int 4) ?df = Some \<lparr>pos = 4, dur = 0, pitch = 62\<rparr>"
    by code_simp
  have d: "dur \<lparr>pos = 4, dur = 0, pitch = 62\<rparr> = 0"
    by simp
  have lt: "int 4 < total_length ?s"
    by code_simp
  have nn: "\<forall>e\<in>set ?s. 0 \<le> quarterLength e"
    by simp
  have res: "streamToNoteArray ?s =
      Inr [60, 129, 129, 129, 128, 129, 129, 129, 64, 129, 129, 129, 128]"
    by code_simp
  from encoder_zero_duration [OF fr fi d lt nn res] fi lt res show ?thesis
    by blast
qed

text \<open>
  Claim C9, as stated, at a concrete stream. The first note ends at tick 4, where the
  second note (quarter length \<open>1/16\<close>, 0 ticks) starts; the second note's pitch 62
  is overwritten by its own NOTE_OFF and the output at tick 4 is 128.
\<close>

theorem encoder_later_onset_lost:
  "streamToNoteArray [Note 0 1 60, Note 1 (1 / 16) 62, Note 2 1 64] =
     Inr [60, 129, 129, 129, 128, 129, 129, 129, 64, 129, 129, 129, 128]"
  by code_simp

text \<open>
  Claim C9, amended. In a stream whose quarter lengths are not negative, when the
  NOTE_OFF tick of a retained note coincides with the onset tick of a later retained
  note, that onset tick is below \<open>totalTicks\<close>, the later note lasts at least one
  tick and its pitch is a MIDI pitch (0 to 127), every array the encoder returns holds
  the later note's pitch at that tick, not 128.
\<close>

theorem encoder_onset_wins:
  assumes "note_frame s = Inr df"
    and "find (\<lambda>r. pos r = int i) df = Some a"
    and "find (\<lambda>r. pos r = int j) df = Some b"
    and "i < j"
    and "int i + dur a = int j"
    and "int j < total_length s"
    and "1 \<le> dur b"
    and "0 \<le> pitch b \<and> pitch b \<le> 127"
    and "\<forall>e\<in>set s. 0 \<le> quarterLength e"
    and "streamToNoteArray s = Inr out"
  shows "out ! j = pitch b \<and> out ! j \<noteq> MELODY_NOTE_OFF"
proof -
  from assms(8) have "int16 (pitch b) = pitch b"
    by (simp add: int16_def)
  with encoder_tick [OF assms(1,3,6) note_frame_durations [OF assms(1,9)] assms(10)] assms(7,8)
  show ?thesis
    by (simp add: MELODY_NOTE_OFF_def)
qed

theorem encoder_onset_wins_witness:
  "find (\<lambda>r. pos r = int 0)
     [\<lparr>pos = 0, dur = 4, pitch = 60\<rparr>, \<lparr>pos = 4, dur = 4, pitch = 62\<rparr>,
      \<lparr>pos = 8, dur = 4, pitch = 64\<rparr>] = Some \<lparr>pos = 0, dur = 4, pitch = 60\<rparr> \<and>
   find (\<lambda>r. pos r = int 4)
     [\<lparr>pos = 0, dur = 4, pitch = 60\<rparr>, \<lparr>pos = 4, dur = 4, pitch = 62\<rparr>,
      \<lparr>pos = 8, dur = 4, pitch = 64\<rparr>] = Some \<lparr>pos = 4, dur = 4, pitch = 62\<rparr> \<and>
   int 4 < total_length [Note 0 1 60, Note 1 1 62, Note 2 1 64] \<and>
   streamToNoteArray [Note 0 1 60, Note 1 1 62, Note 2 1 64] =
     Inr [60, 129, 129, 129, 62, 129, 129, 129, 64, 129, 129, 129, 128] \<and>
   [60, 129, 129, 129, 62, 129, 129, 129, 64, 129, 129, 129, 128 :: int] ! 4 = 62 \<and>
   [60, 129, 129, 129, 62, 129, 129, 129, 64, 129, 129, 129, 128 :: int] ! 4 \<noteq> MELODY_NOTE_OFF"
proof -
  let ?s = "[Note 0 1 60, Note 1 1 62, Note 2 1 64]"
  let ?a = "\<lparr>pos = 0, dur = 4, pitch = 60\<rparr>"
  let ?b = "\<lparr>pos = 4, dur = 4, pitch = 62\<rparr>"
  let ?df = "[?a, ?b, \<lparr>pos = 8, dur = 4, pitch = 64\<rparr>]"
  have fr: "note_frame ?s = Inr ?df"
    by code_simp
  have fa: "find (\<lambda>r. pos r = int 0) ?df = Some ?a"
    by code_simp
  have fb: "find (\<lambda>r. pos r = int 4) ?df = Some ?b"
    by code_simp
  have lt: "int 4 < total_length ?s"
    by code_simp
  have nn: "\<forall>e\<in>set ?s. 0 \<le> quarterLength e"
    by simp
  have res: "streamToNoteArray ?s =
      Inr [60, 129, 129, 129, 62, 129, 129, 129, 64, 129, 129, 129, 128]"
    by code_simp
  have "[60, 129, 129, 129, 62, 129, 129, 129, 64, 129, 129, 129, 128 :: int] ! 4 = pitch ?b \<and>
        [60, 129, 129, 129, 62, 129, 129, 129, 64, 129, 129, 129, 128 :: int] ! 4 \<noteq> MELODY_NOTE_OFF"
    by (rule encoder_onset_wins [OF fr fa fb _ _ lt _ _ nn res]) simp_all
  with fa fb lt res show ?thesis
    by simp
qed

subsection \<open>Decoder\<close>

text \<open>
  Claim C7. The decoder returns one row per entry of the array that is not NO_EVENT,
  in order; row \<open>i\<close> carries the code of that entry and the duration
  \<open>(originalIndex[i+1] - originalIndex[i]) * 0.25\<close> when a row follows, and exactly
  \<open>0.25\<close> when it is the last row. The retained pairs are the entries of the array
  other than NO_EVENT with their positions.
\<close>

theorem decoder_row_durations:
  "length (noteArrayToDataFrame a) = length (retained a) \<and>
   (\<forall>i<length (retained a).
      noteArrayToDataFrame a ! i =
        (fst (retained a ! i),
         if Suc i < length (retained a)
         then of_int (snd (retained a ! Suc i) - snd (retained a ! i)) * (1 / 4)
         else 1 / 4)) \<and>
   (\<forall>(c, k)\<in>set (retained a).
      c \<noteq> MELODY_NO_EVENT \<and> 0 \<le> k \<and> k < int (length a) \<and> a ! nat k = c)"
  using length_noteArrayToDataFrame noteArrayToDataFrame_nth retained_entries
  by blast

theorem decoder_row_durations_witness:
  "noteArrayToDataFrame [60, 129, 129, 62, 128, 129] ! 0 = (60, 3 * (1 / 4)) \<and>
   noteArrayToDataFrame [60, 129, 129, 62, 128, 129] ! 2 = (128, 1 / 4)"
proof -
  let ?a = "[60, 129, 129, 62, 128, 129 :: int]"
  have r: "retained ?a = [(60, 0), (62, 3), (128, 4)]"
    by code_simp
  from decoder_row_durations [of ?a] show ?thesis
    unfolding r by simp
qed

text \<open>
  Claim C10. Every row the decoder produces has a duration of at least \<open>0.25\<close>
  that is a positive whole multiple of the grid unit \<open>0.25\<close>.
\<close>

theorem decoder_durations_positive:
  "\<forall>(code, d)\<in>set (noteArrayToDataFrame a).
     1 / 4 \<le> d \<and> (\<exists>k::nat. 0 < k \<and> d = of_nat k * (1 / 4))"
proof -
  have "1 / 4 \<le> d \<and> (\<exists>k::nat. 0 < k \<and> d = of_nat k * (1 / 4))"
    if mem: "(code, d) \<in> set (noteArrayToDataFrame a)" for code d
  proof -
    from mem obtain i where i: "i < length (retained a)"
      and row: "noteArrayToDataFrame a ! i = (code, d)"
      by (auto simp: in_set_conv_nth length_noteArrayToDataFrame)
    show ?thesis
    proof (cases "Suc i < length (retained a)")
      case False
      with row noteArrayToDataFrame_nth [OF i] have "d = of_nat 1 * (1 / 4)" by simp
      then show ?thesis by (metis less_numeral_extra(1) of_nat_1 mult_1 order_refl)
    next
      case True
      let ?k = "snd (retained a ! Suc i) - snd (retained a ! i)"
      from True sorted_wrt_nth_less [OF retained_index_increasing, of i "Suc i" a]
      have pos: "0 < ?k" by simp
      from True row noteArrayToDataFrame_nth [OF i] have d: "d = of_int ?k * (1 / 4)" by simp
      from pos have one: "(1::rat) \<le> of_int ?k" by linarith
      have "d = of_nat (nat ?k) * (1 / 4)" using d pos by simp
      moreover have "0 < nat ?k" using pos by simp
      moreover have "1 / 4 \<le> d" using d one by simp
      ultimately show ?thesis by blast
    qed
  qed
  then show ?thesis by blast
qed

theorem decoder_durations_positive_witness:
  "(60, 3 / 4) \<in> set (noteArrayToDataFrame [60, 129, 129, 62, 128, 129]) \<and>
   (1 / 4 :: rat) \<le> 3 / 4 \<and> (\<exists>k::nat. 0 < k \<and> (3 / 4 :: rat) = of_nat k * (1 / 4))"
proof -
  have mem: "(60, 3 / 4) \<in> set (noteArrayToDataFrame [60, 129, 129, 62, 128, 129])"
    by code_simp
  have "case (60 :: int, 3 / 4 :: rat) of
          (code, d) \<Rightarrow> 1 / 4 \<le> d \<and> (\<exists>k::nat. 0 < k \<and> d = of_nat k * (1 / 4))"
    using decoder_durations_positive [of "[60, 129, 129, 62, 128, 129]"] mem by (rule bspec)
  with mem show ?thesis
    by simp
qed

subsection \<open>Export\<close>

text \<open>
  Claim C8. For a layer description (a dictionary with the keys \<^verbatim>\<open>config\<close> and
  \<^verbatim>\<open>class_name\<close>) whose kind string is none of the eight recognized kinds, the
  compressor does not fail and emits an entry holding the \<^verbatim>\<open>class_name\<close> only,
  with no \<^verbatim>\<open>config\<close> key. For each of the eight recognized kinds, an entry the
  compressor emits holds a \<^verbatim>\<open>config\<close> whose keys are exactly the documented
  parameter keys of the kind, in order, each with the value the layer's own
  configuration gives it; and the compressor does emit an entry whenever the layer's
  configuration has those keys.
\<close>

theorem compress_layer_whitelist:
  assumes "getitem layer ''config'' = Inr cfg"
    and "getitem layer ''class_name'' = Inr (JStr kind)"
  shows "(documented_keys kind = None \<longrightarrow>
            compress_layer layer = Inr (JObj [(''class_name'', JStr kind)])) \<and>
         (\<forall>ks. documented_keys kind = Some ks \<longrightarrow>
            (\<forall>res. compress_layer layer = Inr res \<longrightarrow>
               (\<exists>kvs. res = JObj [(''class_name'', JStr kind), (''config'', JObj kvs)] \<and>
                      map fst kvs = ks \<and> (\<forall>(k, v)\<in>set kvs. getitem cfg k = Inr v))) \<and>
            ((\<forall>k\<in>set ks. \<exists>v. getitem cfg k = Inr v) \<longrightarrow>
               (\<exists>res. compress_layer layer = Inr res)))"
proof (intro conjI allI impI)
  assume "documented_keys kind = None"
  with assms show "compress_layer layer = Inr (JObj [(''class_name'', JStr kind)])"
    by (simp add: compress_layer_def layer_config_documented)
next
  fix ks res
  assume ks: "documented_keys kind = Some ks" and res: "compress_layer layer = Inr res"
  from res assms ks obtain kvs where
    sel: "select_keys cfg ks = Inr kvs" and
    r: "res = JObj [(''class_name'', JStr kind), (''config'', JObj kvs)]"
    by (auto simp: compress_layer_def layer_config_documented some_config_def split: sum.splits)
  with select_keys_result [OF sel]
  show "\<exists>kvs. res = JObj [(''class_name'', JStr kind), (''config'', JObj kvs)] \<and>
              map fst kvs = ks \<and> (\<forall>(k, v)\<in>set kvs. getitem cfg k = Inr v)"
    by blast
next
  fix ks
  assume ks: "documented_keys kind = Some ks"
    and all: "\<forall>k\<in>set ks. \<exists>v. getitem cfg k = Inr v"
  from select_keys_succeeds [OF all] obtain kvs where "select_keys cfg ks = Inr kvs" ..
  with assms ks show "\<exists>res. compress_layer layer = Inr res"
    by (simp add: compress_layer_def layer_config_documented some_config_def)
qed

theorem compress_layer_whitelist_witness:
  "compress_layer (JObj [(''class_name'', JStr ''Activation''),
                         (''config'', JObj [(''name'', JStr ''activation''),
                                            (''activation'', JStr ''softmax'')])]) =
     Inr (JObj [(''class_name'', JStr ''Activation'')]) \<and>
   (\<exists>kvs. compress_layer (JObj [(''class_name'', JStr ''Dense''),
                                 (''config'', JObj [(''name'', JStr ''dense''), (''units'', JInt 130),
                                                    (''activation'', JStr ''linear''),
                                                    (''use_bias'', JBool True)])]) =
            Inr (JObj [(''class_name'', JStr ''Dense''), (''config'', JObj kvs)]) \<and>
          map fst kvs = [''units'', ''activation''])"
proof -
  let ?ca = "JObj [(''name'', JStr ''activation''), (''activation'', JStr ''softmax'')]"
  let ?la = "JObj [(''class_name'', JStr ''Activation''), (''config'', ?ca)]"
  let ?cd = "JObj [(''name'', JStr ''dense''), (''units'', JInt 130),
                   (''activation'', JStr ''linear''), (''use_bias'', JBool True)]"
  let ?ld = "JObj [(''class_name'', JStr ''Dense''), (''config'', ?cd)]"
  have a1: "getitem ?la ''config'' = Inr ?ca"
    by (simp add: getitem_def)
  have a2: "getitem ?la ''class_name'' = Inr (JStr ''Activation'')"
    by (simp add: getitem_def)
  have a3: "documented_keys ''Activation'' = None"
    by (simp add: documented_keys_def)
  have d1: "getitem ?ld ''config'' = Inr ?cd"
    by (simp add: getitem_def)
  have d2: "getitem ?ld ''class_name'' = Inr (JStr ''Dense'')"
    by (simp add: getitem_def)
  have d3: "documented_keys ''Dense'' = Some [''units'', ''activation'']"
    by (simp add: documented_keys_def)
  have d4: "\<forall>k\<in>set [''units'', ''activation'']. \<exists>v. getitem ?cd k = Inr v"
    by (simp add: getitem_def)
  have ra: "compress_layer ?la = Inr (JObj [(''class_name'', JStr ''Activation'')])"
    by (rule compress_layer_whitelist [OF a1 a2, THEN conjunct1, rule_format, OF a3])
  note dense = compress_layer_whitelist [OF d1 d2, THEN conjunct2, rule_format, OF d3]
  from dense [THEN conjunct2, THEN mp, OF d4]
  obtain res where res: "compress_layer ?ld = Inr res" ..
  from dense [THEN conjunct1, rule_format, OF res]
  have "\<exists>kvs. compress_layer ?ld = Inr (JObj [(''class_name'', JStr ''Dense''), (''config'', JObj kvs)]) \<and>
          map fst kvs = [''units'', ''activation'']"
    unfolding res by (elim exE conjE) (rule exI, simp)
  with ra show ?thesis
    by (rule conjI)
qed




text \<open>
  Claim C1, as stated, at a concrete model. The value under \<^verbatim>\<open>layers_config\<close>
  is the dictionary \<^verbatim>\<open>compressConfig\<close> returns, whose only key is
  \<^verbatim>\<open>config\<close>; it has no key \<^verbatim>\<open>layers\<close> at its top level.
\<close>

theorem export_layers_config_nested:
  "map_sum id fst (get_model_for_export
     \<lparr>get_weights = [[[Finite 1]], []],
        to_json = JObj [(''class_name'', JStr ''Sequential''),
                        (''config'', JObj [(''name'', JStr ''sequential''),
                           (''layers'', JArr [
                              JObj [(''class_name'', JStr ''Dense''),
                                    (''config'', JObj [(''name'', JStr ''dense''), (''units'', JInt 1),
                                                       (''activation'', JStr ''linear'')])],
                              JObj [(''class_name'', JStr ''Activation''),
                                    (''config'', JObj [(''activation'', JStr ''softmax'')])]])])]\<rparr>) =
   Inr (JObj [(''model_name'', JStr ''musicnetgen''),
           (''layers_config'', JObj [(''config'', JObj [(''layers'', JArr [
                   JObj [(''class_name'', JStr ''Dense''),
                         (''config'', JObj [(''units'', JInt 1), (''activation'', JStr ''linear'')])],
                   JObj [(''class_name'', JStr ''Activation'')]])])]),
           (''weight_b64'', JStr ''AACAPw=='')]) \<and>
   getitem (JObj [(''config'', JObj [(''layers'', JArr [
             JObj [(''class_name'', JStr ''Dense''),
                   (''config'', JObj [(''units'', JInt 1), (''activation'', JStr ''linear'')])],
             JObj [(''class_name'', JStr ''Activation'')]])])]) ''layers'' = Inl KeyError"
  by (simp add: example_export getitem_def)

text \<open>
  Claim C1, amended. Every artifact the export writes is a JSON object with exactly the
  three keys \<^verbatim>\<open>model_name\<close> (the constant \<^verbatim>\<open>musicnetgen\<close>),
  \<^verbatim>\<open>layers_config\<close> and \<^verbatim>\<open>weight_b64\<close> (the base64 text of the packed
  weight bytes); \<^verbatim>\<open>layers_config\<close> maps to an object of the form
  \<^verbatim>\<open>{"config": {"layers": [...]}}\<close>, the layers array lying one level down,
  under \<^verbatim>\<open>config\<close>; each element of the array carries \<^verbatim>\<open>class_name\<close> and,
  when present, \<^verbatim>\<open>config\<close>, and nothing else.
\<close>

theorem export_artifact_layout:
  assumes "get_model_for_export model = Inr (artifact, weight_base64, compressed_config)"
  shows "\<exists>layers weight_bytes.
           artifact = JObj [(''model_name'', JStr ''musicnetgen''),
                            (''layers_config'', JObj [(''config'', JObj [(''layers'', JArr layers)])]),
                            (''weight_b64'', JStr (b64encode weight_bytes))] \<and>
           pack_weights [] (get_weights model) = Inr weight_bytes \<and>
           weight_base64 = b64encode weight_bytes \<and>
           compressed_config = JObj [(''config'', JObj [(''layers'', JArr layers)])] \<and>
           (\<forall>res\<in>set layers. \<exists>cn. res = JObj [(''class_name'', cn)] \<or>
              (\<exists>kvs. res = JObj [(''class_name'', cn), (''config'', JObj kvs)]))"
proof -
  from assms obtain weight_bytes where
    w: "pack_weights [] (get_weights model) = Inr weight_bytes" and
    b: "weight_base64 = b64encode weight_bytes" and
    c: "compressConfig (to_json model) = Inr compressed_config" and
    a: "artifact = JObj [(''model_name'', JStr ''musicnetgen''),
                         (''layers_config'', compressed_config),
                         (''weight_b64'', JStr weight_base64)]"
    by (auto simp: get_model_for_export_def Let_def split: sum.splits)
  from compressConfig_shape [OF c] w b a show ?thesis
    by blast
qed

theorem export_artifact_layout_witness:
  "\<exists>layers weight_bytes.
     JObj [(''model_name'', JStr ''musicnetgen''),
           (''layers_config'', JObj [(''config'', JObj [(''layers'', JArr [
                   JObj [(''class_name'', JStr ''Dense''),
                         (''config'', JObj [(''units'', JInt 1), (''activation'', JStr ''linear'')])],
                   JObj [(''class_name'', JStr ''Activation'')]])])]),
           (''weight_b64'', JStr ''AACAPw=='')] =
     JObj [(''model_name'', JStr ''musicnetgen''),
           (''layers_config'', JObj [(''config'', JObj [(''layers'', JArr layers)])]),
           (''weight_b64'', JStr (b64encode weight_bytes))]"
  using export_artifact_layout [OF example_export] by (elim exE conjE) (intro exI)

end
